theory Spec2Isabelle
  imports Complex_Main
begin

section \<open>Floating-point values\<close>

text \<open>
  The program computes with numpy's float64. The model keeps the four kinds of value of
  IEEE 754 arithmetic: a finite number, the two infinities and NaN. Finite values are real
  numbers and an operation on finite values is exact: rounding, overflow and underflow are
  left out. There is one zero; a finite number divided by zero takes the sign of the
  numerator, since the zero divisors of this program come out of a square root, an
  addition or a subtraction, which give +0 under round-to-nearest.
\<close>

datatype fl = NaN | NInf | PInf | Fin real

instantiation fl :: "{zero, one, plus, uminus, minus, times, inverse, abs}"
begin

definition zero_fl :: fl where
  "zero_fl = Fin 0"

definition one_fl :: fl where
  "one_fl = Fin 1"

fun plus_fl :: "fl \<Rightarrow> fl \<Rightarrow> fl" where
  "plus_fl (Fin a) (Fin b) = Fin (a + b)"
| "plus_fl NaN _ = NaN"
| "plus_fl _ NaN = NaN"
| "plus_fl PInf NInf = NaN"
| "plus_fl NInf PInf = NaN"
| "plus_fl PInf _ = PInf"
| "plus_fl _ PInf = PInf"
| "plus_fl NInf _ = NInf"
| "plus_fl _ NInf = NInf"

fun uminus_fl :: "fl \<Rightarrow> fl" where
  "uminus_fl (Fin a) = Fin (- a)"
| "uminus_fl PInf = NInf"
| "uminus_fl NInf = PInf"
| "uminus_fl NaN = NaN"

definition minus_fl :: "fl \<Rightarrow> fl \<Rightarrow> fl" where
  "minus_fl a b = (a::fl) + (- b)"

fun times_fl :: "fl \<Rightarrow> fl \<Rightarrow> fl" where
  "times_fl (Fin a) (Fin b) = Fin (a * b)"
| "times_fl NaN _ = NaN"
| "times_fl _ NaN = NaN"
| "times_fl PInf PInf = PInf"
| "times_fl PInf NInf = NInf"
| "times_fl NInf PInf = NInf"
| "times_fl NInf NInf = PInf"
| "times_fl PInf (Fin b) = (if b = 0 then NaN else if 0 < b then PInf else NInf)"
| "times_fl NInf (Fin b) = (if b = 0 then NaN else if 0 < b then NInf else PInf)"
| "times_fl (Fin a) PInf = (if a = 0 then NaN else if 0 < a then PInf else NInf)"
| "times_fl (Fin a) NInf = (if a = 0 then NaN else if 0 < a then NInf else PInf)"

fun divide_fl :: "fl \<Rightarrow> fl \<Rightarrow> fl" where
  "divide_fl (Fin a) (Fin b) =
     (if b = 0 then (if a = 0 then NaN else if 0 < a then PInf else NInf)
      else Fin (a / b))"
| "divide_fl NaN _ = NaN"
| "divide_fl _ NaN = NaN"
| "divide_fl (Fin a) PInf = Fin 0"
| "divide_fl (Fin a) NInf = Fin 0"
| "divide_fl PInf (Fin b) = (if 0 \<le> b then PInf else NInf)"
| "divide_fl NInf (Fin b) = (if 0 \<le> b then NInf else PInf)"
| "divide_fl PInf PInf = NaN"
| "divide_fl PInf NInf = NaN"
| "divide_fl NInf PInf = NaN"
| "divide_fl NInf NInf = NaN"

definition inverse_fl :: "fl \<Rightarrow> fl" where
  "inverse_fl a = divide (Fin 1) (a::fl)"

fun abs_fl :: "fl \<Rightarrow> fl" where
  "abs_fl (Fin a) = Fin \<bar>a\<bar>"
| "abs_fl PInf = PInf"
| "abs_fl NInf = PInf"
| "abs_fl NaN = NaN"

instance ..

end

instance fl :: power ..

text \<open>
  Addition is associative and commutative also on the infinities and NaN, so a sum over an
  index set does not depend on the order of its terms.
\<close>

instance fl :: comm_monoid_add
proof
  fix u v w :: fl
  show "0 + u = u"
    by (cases u; simp add: zero_fl_def)
  show "u + v = v + u"
    by (cases u; cases v; simp)
  show "u + v + w = u + (v + w)"
    by (cases u; cases v; cases w; simp)
qed

section \<open>The numpy functions the program calls\<close>

text \<open>
  Each function follows IEEE 754 on the infinities and NaN and is the real function on
  finite arguments. An array of one dimension is a list, and numpy applies a function to
  an array element by element.
\<close>

fun exp_fl :: "fl \<Rightarrow> fl" where
  "exp_fl (Fin a) = Fin (exp a)"
| "exp_fl PInf = PInf"
| "exp_fl NInf = Fin 0"
| "exp_fl NaN = NaN"

fun log10_fl :: "fl \<Rightarrow> fl" where
  "log10_fl (Fin a) = (if 0 < a then Fin (log 10 a) else if a = 0 then NInf else NaN)"
| "log10_fl PInf = PInf"
| "log10_fl NInf = NaN"
| "log10_fl NaN = NaN"

datatype error = ValueError | UnboundLocalError

type_synonym ndarray = "fl list"

definition np_log10 :: "ndarray \<Rightarrow> ndarray" where
  "np_log10 a = map log10_fl a"

definition np_abs :: "ndarray \<Rightarrow> ndarray" where
  "np_abs a = map abs a"

text \<open>The mean of an empty array is 0 / 0, which is NaN.\<close>

definition np_mean :: "ndarray \<Rightarrow> fl" where
  "np_mean a = sum_list a / Fin (real (length a))"

text \<open>
  Subtraction of two arrays of one dimension: element by element when the lengths agree,
  an array of length one is broadcast, and any other pair of lengths raises ValueError.
\<close>

definition np_subtract :: "ndarray \<Rightarrow> ndarray \<Rightarrow> error + ndarray" where
  "np_subtract a b =
     (if length a = length b then Inr (map2 (-) a b)
      else if length a = 1 then Inr (map (\<lambda>v. hd a - v) b)
      else if length b = 1 then Inr (map (\<lambda>u. u - hd b) a)
      else Inl ValueError)"

subsection \<open>Arrays that are updated in place\<close>

text \<open>
  An array that the program updates in place lives in a store, a list of arrays addressed
  by position; a reference is an address. \<open>np.zeros\<close> allocates a new array at the
  end of the store, and \<open>r += v\<close> overwrites the array at \<open>r\<close>. The arrays that pure
  numpy expressions produce are never written to and are plain values.
\<close>

type_synonym ref = nat
type_synonym heap = "ndarray list"

definition np_zeros :: "nat \<Rightarrow> heap \<Rightarrow> ref \<times> heap" where
  "np_zeros m H = (length H, H @ [replicate m 0])"

definition iadd :: "ref \<Rightarrow> ndarray \<Rightarrow> heap \<Rightarrow> heap" where
  "iadd r v H = H[r := map2 (+) (H ! r) v]"

text \<open>The slice \<open>xs[a:b]\<close> of Python for indices that are not negative.\<close>

definition slice :: "nat \<Rightarrow> nat \<Rightarrow> 'a list \<Rightarrow> 'a list" where
  "slice a b xs = take (b - a) (drop a xs)"

section \<open>The density model (\<open>_density.py\<close>)\<close>

text \<open>
  The loop of \<open>rho_approximation\<close> over \<open>zip(alphas, betas, gammas)\<close>: each turn
  adds \<open>alpha * np.exp(-(h - gamma) * beta)\<close> to the array \<open>retval\<close> in place.
\<close>

fun rho_loop :: "ref \<Rightarrow> ref \<Rightarrow> (fl \<times> fl \<times> fl) list \<Rightarrow> heap \<Rightarrow> heap" where
  "rho_loop h retval [] H = H"
| "rho_loop h retval ((alpha, beta, gamma) # rest) H =
     rho_loop h retval rest
       (iadd retval (map (\<lambda>a. alpha * exp_fl ((- (a - gamma)) * beta)) (H ! h)) H)"

definition rho_approximation :: "ref \<Rightarrow> fl list \<Rightarrow> heap \<Rightarrow> ref \<times> heap" where
  "rho_approximation h params H =
     (let n = length params div 3;
          alphas = slice 0 n params;
          betas = slice n (2 * n) params;
          gammas = slice (2 * n) (3 * n) params;
          (retval, H1) = np_zeros (length (H ! h)) H
      in (retval, rho_loop h retval (zip alphas (zip betas gammas)) H1))"

text \<open>
  The class \<open>global_fit_udp\<close>: the object holds references to the arrays \<open>X\<close> and
  \<open>Y\<close> and the integer \<open>n\<close>. A method takes and returns the object together with the
  store.
\<close>

record global_fit_udp =
  self_X :: ref
  self_Y :: ref
  self_n :: int

record world =
  udp :: global_fit_udp
  heap :: heap

definition init :: "ref \<Rightarrow> ref \<Rightarrow> int \<Rightarrow> global_fit_udp" where
  "init X Y n = \<lparr>self_X = X, self_Y = Y, self_n = n\<rparr>"

definition fitness :: "fl list \<Rightarrow> world \<Rightarrow> (error + fl list) \<times> world" where
  "fitness x w =
     (let (Y_pred, H1) = rho_approximation (self_X (udp w)) x (heap w) in
      (case np_subtract (np_log10 (H1 ! self_Y (udp w))) (np_log10 (H1 ! Y_pred)) of
         Inl e \<Rightarrow> Inl e
       | Inr d \<Rightarrow> Inr [np_mean (np_abs d)],
       w\<lparr>heap := H1\<rparr>))"

text \<open>
  \<open>pg.estimate_gradient\<close> belongs to the pygmo library. It is taken as a parameter: a
  finite-difference scheme, given by the points at which it calls the objective, in order,
  and by how it combines the values returned. An exception of the objective ends it.
\<close>

record estimator =
  eg_points :: "fl list \<Rightarrow> fl list list"
  eg_combine :: "fl list \<Rightarrow> fl list list \<Rightarrow> error + fl list"

fun call_all :: "('a \<Rightarrow> 's \<Rightarrow> (error + 'b) \<times> 's) \<Rightarrow> 'a list \<Rightarrow> 's \<Rightarrow> (error + 'b list) \<times> 's" where
  "call_all f [] w = (Inr [], w)"
| "call_all f (p # ps) w =
     (case f p w of
        (Inl e, w1) \<Rightarrow> (Inl e, w1)
      | (Inr v, w1) \<Rightarrow>
          (case call_all f ps w1 of
             (Inl e, w2) \<Rightarrow> (Inl e, w2)
           | (Inr vs, w2) \<Rightarrow> (Inr (v # vs), w2)))"

definition estimate_gradient ::
  "estimator \<Rightarrow> (fl list \<Rightarrow> 's \<Rightarrow> (error + fl list) \<times> 's) \<Rightarrow> fl list \<Rightarrow> 's \<Rightarrow> (error + fl list) \<times> 's" where
  "estimate_gradient E f x w =
     (case call_all f (eg_points E x) w of
        (Inl e, w1) \<Rightarrow> (Inl e, w1)
      | (Inr vs, w1) \<Rightarrow> (eg_combine E x vs, w1))"

definition gradient :: "estimator \<Rightarrow> fl list \<Rightarrow> world \<Rightarrow> (error + fl list) \<times> world" where
  "gradient E x w = estimate_gradient E (\<lambda>x. fitness x) x w"

text \<open>
  Python's \<open>xs * k\<close> on a list (empty when \<open>k\<close> is negative) and the slice assignment
  \<open>xs[s:] = v\<close>, where a negative \<open>s\<close> counts from the end and the index is clipped
  to the list.
\<close>

definition list_mul :: "'a list \<Rightarrow> int \<Rightarrow> 'a list" where
  "list_mul xs k = concat (replicate (nat k) xs)"

definition slice_start :: "int \<Rightarrow> nat \<Rightarrow> nat" where
  "slice_start s len = (if s < 0 then nat (max 0 (int len + s)) else min (nat s) len)"

definition assign_from :: "'a list \<Rightarrow> int \<Rightarrow> 'a list \<Rightarrow> 'a list" where
  "assign_from xs s v = take (slice_start s (length xs)) xs @ v"

definition get_bounds :: "world \<Rightarrow> (real list \<times> real list) \<times> world" where
  "get_bounds w =
     (let lb = list_mul (list_mul [0] (self_n (udp w))) 3;
          ub = list_mul (list_mul [1 / 10] (self_n (udp w))) 3;
          ub = assign_from ub (self_n (udp w) * 2) (list_mul [100] (self_n (udp w)))
      in ((lb, ub), w))"


section \<open>The coordinate transforms (\<open>_util.py\<close>)\<close>

text \<open>
  \<open>cart2geo\<close> and \<open>geo2cart\<close> take \<open>sqrt\<close>, \<open>sin\<close>, \<open>cos\<close>, \<open>atan\<close> and
  \<open>atan2\<close> from a module that the flag \<open>symbolic\<close> selects (numpy or heyoka). The
  model takes the selected module as a parameter.
\<close>

record backend =
  backend_sqrt :: "fl \<Rightarrow> fl"
  backend_sin :: "fl \<Rightarrow> fl"
  backend_cos :: "fl \<Rightarrow> fl"
  backend_atan :: "fl \<Rightarrow> fl"
  backend_atan2 :: "fl \<Rightarrow> fl \<Rightarrow> fl"

text \<open>
  numpy's functions, exact on finite arguments. The arc tangent of an infinity is the
  float64 nearest to \<open>pi / 2\<close>, which is 884279719003555 / 2^49 and lies below
  \<open>pi / 2\<close>: its cosine is small and positive, not zero.
\<close>

definition pi_half_f64 :: real where
  "pi_half_f64 = 884279719003555 / 562949953421312"

fun sqrt_fl :: "fl \<Rightarrow> fl" where
  "sqrt_fl (Fin a) = (if 0 \<le> a then Fin (sqrt a) else NaN)"
| "sqrt_fl PInf = PInf"
| "sqrt_fl NInf = NaN"
| "sqrt_fl NaN = NaN"

fun sin_fl :: "fl \<Rightarrow> fl" where
  "sin_fl (Fin a) = Fin (sin a)"
| "sin_fl _ = NaN"

fun cos_fl :: "fl \<Rightarrow> fl" where
  "cos_fl (Fin a) = Fin (cos a)"
| "cos_fl _ = NaN"

fun arctan_fl :: "fl \<Rightarrow> fl" where
  "arctan_fl (Fin a) = Fin (arctan a)"
| "arctan_fl PInf = Fin pi_half_f64"
| "arctan_fl NInf = Fin (- pi_half_f64)"
| "arctan_fl NaN = NaN"

definition arctan2_real :: "real \<Rightarrow> real \<Rightarrow> real" where
  "arctan2_real y x =
     (if 0 < x then arctan (y / x)
      else if x < 0 then (if 0 \<le> y then arctan (y / x) + pi else arctan (y / x) - pi)
      else if 0 < y then pi / 2
      else if y < 0 then - (pi / 2)
      else 0)"

fun arctan2_fl :: "fl \<Rightarrow> fl \<Rightarrow> fl" where
  "arctan2_fl (Fin y) (Fin x) = Fin (arctan2_real y x)"
| "arctan2_fl NaN _ = NaN"
| "arctan2_fl _ NaN = NaN"
| "arctan2_fl (Fin y) PInf = Fin 0"
| "arctan2_fl (Fin y) NInf = Fin (if 0 \<le> y then pi else - pi)"
| "arctan2_fl PInf (Fin x) = Fin (pi / 2)"
| "arctan2_fl NInf (Fin x) = Fin (- (pi / 2))"
| "arctan2_fl PInf PInf = Fin (pi / 4)"
| "arctan2_fl NInf PInf = Fin (- (pi / 4))"
| "arctan2_fl PInf NInf = Fin (3 * pi / 4)"
| "arctan2_fl NInf NInf = Fin (- (3 * pi / 4))"

definition np :: backend where
  "np = \<lparr>backend_sqrt = sqrt_fl, backend_sin = sin_fl, backend_cos = cos_fl,
          backend_atan = arctan_fl, backend_atan2 = arctan2_fl\<rparr>"

text \<open>The WGS84 values and the default of the parameter \<open>e2\<close>.\<close>

definition a_earth :: fl where
  "a_earth = Fin 6378137"

definition b_earth :: fl where
  "b_earth = Fin 6356752.314245"

definition default_e2 :: fl where
  "default_e2 = 1 - b_earth ^ 2 / a_earth ^ 2"

text \<open>
  The loop \<open>for _ in range(iters)\<close> of \<open>cart2geo\<close>. The variable \<open>h\<close> has no value
  before the first turn: it is \<open>None\<close> until the loop body assigns it.
\<close>

fun cart2geo_loop ::
  "backend \<Rightarrow> fl \<Rightarrow> fl \<Rightarrow> fl \<Rightarrow> fl \<Rightarrow> nat \<Rightarrow> fl option \<Rightarrow> fl \<Rightarrow> fl option \<times> fl" where
  "cart2geo_loop B z p e2 R_eq 0 h phi = (h, phi)"
| "cart2geo_loop B z p e2 R_eq (Suc k) h phi =
     (let N = R_eq / backend_sqrt B (1 - e2 * backend_sin B phi ^ 2);
          h' = p / backend_cos B phi - N;
          phi' = backend_atan B (z / p / (1 - e2 * N / (N + h')))
      in cart2geo_loop B z p e2 R_eq k (Some h') phi')"

text \<open>
  \<open>range(iters)\<close> is empty for an \<open>iters\<close> that is zero or negative. Returning \<open>h\<close>
  while it has no value raises UnboundLocalError.
\<close>

definition cart2geo ::
  "backend \<Rightarrow> fl \<Rightarrow> fl \<Rightarrow> fl \<Rightarrow> fl \<Rightarrow> fl \<Rightarrow> int \<Rightarrow> error + (fl \<times> fl \<times> fl)" where
  "cart2geo B x y z e2 R_eq iters =
     (let long = backend_atan2 B y x;
          p = backend_sqrt B (x ^ 2 + y ^ 2);
          phi = backend_atan B (z / p / (1 - e2));
          (h, phi) = cart2geo_loop B z p e2 R_eq (nat iters) None phi
      in case h of
           None \<Rightarrow> Inl UnboundLocalError
         | Some h \<Rightarrow> Inr (h, phi, long))"

definition geo2cart :: "backend \<Rightarrow> fl \<Rightarrow> fl \<Rightarrow> fl \<Rightarrow> fl \<Rightarrow> fl \<Rightarrow> fl \<times> fl \<times> fl" where
  "geo2cart B h lat lon e2 R_eq =
     (let N = R_eq / backend_sqrt B (1 - e2 * backend_sin B lat ^ 2);
          x = (N + h) * backend_cos B lat * backend_cos B lon;
          y = (N + h) * backend_cos B lat * backend_sin B lon;
          z = ((1 - e2) * N + h) * backend_sin B lat
      in (x, y, z))"

section \<open>The specification's formulas\<close>

text \<open>
  The density of the specification at one altitude \<open>h\<close>, for a parameter vector of
  length \<open>3n\<close>: the sum over \<open>i\<close> of \<open>alpha_i * exp(-(h - gamma_i) * beta_i)\<close>, with
  \<open>alphas = params[0..n)\<close>, \<open>betas = params[n..2n)\<close>, \<open>gammas = params[2n..3n)\<close>.
\<close>

definition spec_rho :: "nat \<Rightarrow> fl list \<Rightarrow> fl \<Rightarrow> fl" where
  "spec_rho n params h =
     (\<Sum>i<n. params ! i * exp_fl ((- (h - params ! (2 * n + i))) * params ! (n + i)))"

text \<open>
  The objective of the specification: the mean over \<open>i\<close> of
  \<open>|log10(Y[i]) - log10(rho(X, params)[i])|\<close>.
\<close>

definition spec_fitness :: "nat \<Rightarrow> fl list \<Rightarrow> fl list \<Rightarrow> fl list \<Rightarrow> fl" where
  "spec_fitness n Xs Ys params =
     (\<Sum>i<length Xs. \<bar>log10_fl (Ys ! i) - log10_fl (spec_rho n params (Xs ! i))\<bar>)
       / Fin (real (length Xs))"

text \<open>
  One refinement step of the specification, on the pair of the altitude and the latitude:
  \<open>N = R_eq / sqrt(1 - e2 * sin(phi)^2)\<close>, \<open>h = p / cos(phi) - N\<close>,
  \<open>phi = atan(z / (p * (1 - e2 * N / (N + h))))\<close>. The step does not read the altitude
  it replaces.
\<close>

definition spec_step :: "backend \<Rightarrow> fl \<Rightarrow> fl \<Rightarrow> fl \<Rightarrow> fl \<Rightarrow> fl \<times> fl \<Rightarrow> fl \<times> fl" where
  "spec_step B z p e2 R_eq hphi =
     (let phi = snd hphi;
          N = R_eq / backend_sqrt B (1 - e2 * backend_sin B phi ^ 2);
          h = p / backend_cos B phi - N;
          phi = backend_atan B (z / (p * (1 - e2 * N / (N + h))))
      in (h, phi))"

text \<open>
  \<open>cartesianToGeodetic\<close> of the specification with \<open>k\<close> refinement steps, started
  with the altitude \<open>h0\<close>: the longitude \<open>atan2(y, x)\<close>, \<open>p = sqrt(x^2 + y^2)\<close>, the
  initial estimate \<open>atan(z / (p * (1 - e2)))\<close>, then \<open>k\<close> steps.
\<close>

definition spec_cartesianToGeodetic ::
  "backend \<Rightarrow> fl \<Rightarrow> fl \<Rightarrow> fl \<Rightarrow> fl \<Rightarrow> fl \<Rightarrow> nat \<Rightarrow> fl \<Rightarrow> fl \<times> fl \<times> fl" where
  "spec_cartesianToGeodetic B x y z e2 R_eq k h0 =
     (let longitude = backend_atan2 B y x;
          p = backend_sqrt B (x ^ 2 + y ^ 2);
          phi0 = backend_atan B (z / (p * (1 - e2)));
          hphi = (spec_step B z p e2 R_eq ^^ k) (h0, phi0)
      in (fst hphi, snd hphi, longitude))"


section \<open>Reading the store, and sequences of calls\<close>

text \<open>The array that a call returns, read from the store the call leaves.\<close>

definition deref :: "ref \<times> heap \<Rightarrow> ndarray" where
  "deref rH = snd rH ! fst rH"

text \<open>
  The references of the object point into the store; the dataset is what they point to.
\<close>

definition valid :: "world \<Rightarrow> bool" where
  "valid w = (self_X (udp w) < length (heap w) \<and> self_Y (udp w) < length (heap w))"

definition dataset_X :: "world \<Rightarrow> ndarray" where
  "dataset_X w = heap w ! self_X (udp w)"

definition dataset_Y :: "world \<Rightarrow> ndarray" where
  "dataset_Y w = heap w ! self_Y (udp w)"

fun finite_fl :: "fl \<Rightarrow> bool" where
  "finite_fl (Fin a) = True"
| "finite_fl _ = False"

text \<open>The comparison \<open>v > 0\<close> of floating-point values: false on NaN.\<close>

fun positive_fl :: "fl \<Rightarrow> bool" where
  "positive_fl (Fin a) = (0 < a)"
| "positive_fl PInf = True"
| "positive_fl _ = False"

text \<open>
  A caller invokes the methods of the object in any order; \<open>run\<close> performs a sequence
  of calls and keeps the object and the store, whatever each call returns or raises.
\<close>

datatype call = Fitness "fl list" | Gradient "fl list" | Get_bounds

fun perform :: "estimator \<Rightarrow> call \<Rightarrow> world \<Rightarrow> world" where
  "perform E (Fitness x) w = snd (fitness x w)"
| "perform E (Gradient x) w = snd (gradient E x w)"
| "perform E Get_bounds w = snd (get_bounds w)"

fun run :: "estimator \<Rightarrow> call list \<Rightarrow> world \<Rightarrow> world" where
  "run E [] w = w"
| "run E (c # cs) w = run E cs (perform E c w)"

text \<open>
  The object is the same and the store has only grown: every array of \<open>w\<close> is in
  \<open>w'\<close> at its address, with its contents.
\<close>

definition grows :: "world \<Rightarrow> world \<Rightarrow> bool" where
  "grows w w' = (udp w' = udp w \<and> (\<exists>ext. heap w' = heap w @ ext))"

text \<open>
  A central-difference scheme with step \<open>dx\<close>: the objective at \<open>x\<close>, then for each
  coordinate \<open>j\<close> the objective at \<open>x\<close> with the coordinate moved up and moved down by
  \<open>dx\<close>; entry \<open>j\<close> of the estimate is the difference of the two values over \<open>2 dx\<close>.
\<close>

definition central_difference :: "fl \<Rightarrow> estimator" where
  "central_difference dx =
     \<lparr>eg_points = (\<lambda>x. x # concat (map (\<lambda>j. [x[j := x ! j + dx], x[j := x ! j - dx]]) [0..<length x])),
      eg_combine = (\<lambda>x vs. Inr (map (\<lambda>j. (hd (vs ! (2 * j + 1)) - hd (vs ! (2 * j + 2))) / Fin 2 / dx)
                                   [0..<length x]))\<rparr>"

section \<open>Conditions on a backend\<close>

text \<open>
  A value that a square root can return: NaN, plus infinity or a finite number that is not
  negative.
\<close>

fun nonneg_fl :: "fl \<Rightarrow> bool" where
  "nonneg_fl (Fin a) = (0 \<le> a)"
| "nonneg_fl NInf = False"
| "nonneg_fl _ = True"

definition sqrt_nonneg :: "backend \<Rightarrow> bool" where
  "sqrt_nonneg B = (\<forall>v. nonneg_fl (backend_sqrt B v))"

text \<open>
  What the results on the polar axis need of a backend: the square root of zero is zero,
  and \<open>sqrt\<close>, \<open>sin\<close> and \<open>atan\<close> return NaN on NaN. Nothing is asked of the
  rounding of \<open>sin\<close>, \<open>cos\<close> and \<open>atan\<close> on other arguments.
\<close>

definition ieee_backend :: "backend \<Rightarrow> bool" where
  "ieee_backend B =
     (backend_sqrt B (Fin 0) = Fin 0 \<and> backend_sqrt B NaN = NaN
      \<and> backend_sin B NaN = NaN \<and> backend_atan B NaN = NaN)"

section \<open>Auxiliary definitions\<close>

text \<open>The term that one turn of the loop of \<open>rho_approximation\<close> adds at the altitude \<open>a\<close>.\<close>

definition term_of :: "fl \<Rightarrow> fl \<times> fl \<times> fl \<Rightarrow> fl" where
  "term_of a t = (case t of (alpha, beta, gamma) \<Rightarrow> alpha * exp_fl ((- (a - gamma)) * beta))"

section \<open>Arithmetic of the floating-point values\<close>

lemma minus_fl_simps [simp]:
  "Fin a - Fin b = Fin (a - b)"
  "NaN - v = NaN"
  "v - NaN = NaN"
  "Fin a - NInf = PInf"
  "Fin a - PInf = NInf"
  "PInf - Fin b = PInf"
  "NInf - Fin b = NInf"
  "PInf - NInf = PInf"
  "NInf - PInf = NInf"
  "PInf - PInf = NaN"
  "NInf - NInf = NaN"
  by (cases v; simp add: minus_fl_def)+

lemma nan_simps [simp]:
  "x + NaN = NaN" "NaN + x = NaN" "x * NaN = NaN" "NaN * x = NaN" "x / NaN = NaN" "NaN / x = NaN"
  by (cases x; simp)+

lemma mult_one_fl: "x * Fin 1 = x"
  by (cases x) simp_all

lemma power2_fl: "(x::fl) ^ 2 = x * x"
  by (simp add: numeral_2_eq_2 one_fl_def mult_one_fl)

text \<open>
  The program writes \<open>z / p / c\<close> where the specification writes \<open>z / (p * c)\<close>. The
  two agree when \<open>p\<close> is a value of a square root other than zero, and at \<open>p = 0\<close> when
  \<open>c\<close> is not a negative finite number.
\<close>

lemma div_div_nonzero:
  assumes "nonneg_fl p" and "p \<noteq> Fin 0"
  shows "z / p / c = z / (p * c)"
  using assms
  by (cases z; cases p; cases c)
     (auto simp: zero_less_divide_iff zero_less_mult_iff zero_le_mult_iff divide_less_0_iff
        mult_less_0_iff not_less)

lemma div_div_zero:
  assumes "\<not> finite_fl c \<or> nonneg_fl c"
  shows "z / Fin 0 / c = z / (Fin 0 * c)"
  using assms
  by (cases z; cases c) auto

text \<open>
  On the polar axis \<open>p\<close> is zero, \<open>N + h\<close> is zero or NaN, and the denominator
  \<open>1 - e2 * N / (N + h)\<close> is never finite.
\<close>

lemma pole_denominator:
  "\<not> finite_fl (1 - e2 * N / (N + (Fin 0 / c - N)))"
  by (cases e2; cases N; cases c) (auto simp: one_fl_def)

lemma div_div_step:
  assumes "nonneg_fl p"
  shows "z / p / (1 - e2 * N / (N + (p / c - N))) = z / (p * (1 - e2 * N / (N + (p / c - N))))"
proof (cases "p = Fin 0")
  case True
  show ?thesis unfolding True
    by (rule div_div_zero) (simp add: pole_denominator)
next
  case False
  show ?thesis by (rule div_div_nonzero[OF assms False])
qed

section \<open>The loop of the density model\<close>

text \<open>The loop writes to the array it was given and to nothing else.\<close>

lemma rho_loop_append: "\<exists>a'. rho_loop h (length H) ts (H @ [a]) = H @ [a']"
proof (induction ts arbitrary: a)
  case Nil
  then show ?case by simp
next
  case (Cons t ts)
  obtain alpha beta gamma where t: "t = (alpha, beta, gamma)" by (cases t)
  show ?case
    using Cons[of "map2 (+) a (map (\<lambda>a. alpha * exp_fl ((- (a - gamma)) * beta)) ((H @ [a]) ! h))"]
    by (simp add: t iadd_def)
qed

text \<open>
  When \<open>retval\<close> is not the array of altitudes, each entry of \<open>retval\<close> accumulates
  the terms of its own altitude.
\<close>

lemma rho_loop_retval:
  "h \<noteq> r \<Longrightarrow> r < length H \<Longrightarrow> length (H ! r) = length (H ! h) \<Longrightarrow>
   rho_loop h r ts H ! r = map2 (\<lambda>acc a. foldl (\<lambda>s t. s + term_of a t) acc ts) (H ! r) (H ! h)"
proof (induction h r ts H rule: rho_loop.induct)
  case (1 h retval H)
  then show ?case by (simp add: map_idI list_eq_iff_nth_eq)
next
  case (2 h retval alpha beta gamma rest H)
  let ?H = "iadd retval (map (\<lambda>a. alpha * exp_fl ((- (a - gamma)) * beta)) (H ! h)) H"
  have a: "?H ! h = H ! h" using 2(2) by (simp add: iadd_def)
  have b: "?H ! retval = map2 (+) (H ! retval) (map (\<lambda>a. alpha * exp_fl ((- (a - gamma)) * beta)) (H ! h))"
    using 2(3) by (simp add: iadd_def)
  have c: "length ?H = length H" by (simp add: iadd_def)
  have "rho_loop h retval rest ?H ! retval =
        map2 (\<lambda>acc a. foldl (\<lambda>s t. s + term_of a t) acc rest) (?H ! retval) (?H ! h)"
    using 2 a b c by simp
  then show ?case using 2(4)
    by (simp add: a b list_eq_iff_nth_eq term_of_def)
qed

lemma foldl_sum:
  fixes g :: "'a \<Rightarrow> fl"
  shows "foldl (\<lambda>s t. s + g t) acc ts = acc + (\<Sum>i<length ts. g (ts ! i))"
proof (induction ts rule: rev_induct)
  case Nil
  then show ?case by (simp add: add.commute[of acc])
next
  case (snoc x xs)
  then show ?case by (simp add: nth_append add.assoc)
qed

lemma triple_nth:
  assumes "3 * n \<le> length params" "i < n"
  shows "zip (slice 0 n params) (zip (slice n (2 * n) params) (slice (2 * n) (3 * n) params)) ! i
         = (params ! i, params ! (n + i), params ! (2 * n + i))"
  using assms by (simp add: slice_def)

lemma triple_length:
  assumes "3 * n \<le> length params"
  shows "length (zip (slice 0 n params) (zip (slice n (2 * n) params) (slice (2 * n) (3 * n) params))) = n"
  using assms by (simp add: slice_def)

lemma rho_terms:
  assumes "3 * n \<le> length params"
  shows "foldl (\<lambda>s t. s + term_of a t) 0
           (zip (slice 0 n params) (zip (slice n (2 * n) params) (slice (2 * n) (3 * n) params)))
         = spec_rho n params a"
proof -
  let ?ts = "zip (slice 0 n params) (zip (slice n (2 * n) params) (slice (2 * n) (3 * n) params))"
  have "foldl (\<lambda>s t. s + term_of a t) 0 ?ts = 0 + (\<Sum>i<length ?ts. term_of a (?ts ! i))"
    by (rule foldl_sum)
  also have "\<dots> = (\<Sum>i<n. term_of a (?ts ! i))"
    by (simp only: triple_length[OF assms] add_0)
  also have "\<dots> = (\<Sum>i<n. term_of a (params ! i, params ! (n + i), params ! (2 * n + i)))"
    by (rule sum.cong) (simp_all only: triple_nth[OF assms] lessThan_iff)
  also have "\<dots> = spec_rho n params a"
    by (simp add: spec_rho_def term_of_def)
  finally show ?thesis .
qed

lemma rho_approximation_heap: "\<exists>a. snd (rho_approximation h params H) = H @ [a]"
  using rho_loop_append by (simp add: rho_approximation_def np_zeros_def Let_def)

text \<open>
  The evaluation for a parameter vector of any length: the number of terms is the length
  divided by three, rounded down.
\<close>

lemma rho_approximation_value:
  assumes "h < length H"
  shows "deref (rho_approximation h params H) = map (spec_rho (length params div 3) params) (H ! h)"
proof -
  define n where "n = length params div 3"
  have n: "3 * n \<le> length params" by (simp add: n_def)
  let ?ts = "zip (slice 0 n params) (zip (slice n (2 * n) params) (slice (2 * n) (3 * n) params))"
  let ?H1 = "H @ [replicate (length (H ! h)) 0]"
  have eq: "rho_approximation h params H = (length H, rho_loop h (length H) ?ts ?H1)"
    by (simp add: rho_approximation_def np_zeros_def Let_def n_def)
  have hh: "?H1 ! h = H ! h" using assms by (simp add: nth_append)
  have "rho_loop h (length H) ?ts ?H1 ! length H
        = map2 (\<lambda>acc a. foldl (\<lambda>s t. s + term_of a t) acc ?ts) (?H1 ! length H) (?H1 ! h)"
    using assms by (intro rho_loop_retval) (simp_all add: nth_append)
  also have "\<dots> = map (\<lambda>a. foldl (\<lambda>s t. s + term_of a t) 0 ?ts) (H ! h)"
    by (simp add: hh list_eq_iff_nth_eq)
  also have "\<dots> = map (spec_rho n params) (H ! h)"
    by (simp only: rho_terms[OF n])
  finally show ?thesis by (simp add: deref_def eq n_def)
qed

text \<open>
  C3. For a parameter vector of length \<open>3n\<close> and an array of altitudes of any length,
  the density model returns an array of the same length whose entry at each altitude
  \<open>h\<close> is the sum over \<open>i < n\<close> of \<open>alpha_i * exp(-(h - gamma_i) * beta_i)\<close>; an empty
  array of altitudes gives an empty array.
\<close>

theorem rho_approximation_sum_of_exponentials:
  assumes "h < length H" and "length params = 3 * n"
  shows "deref (rho_approximation h params H) = map (spec_rho n params) (H ! h)
         \<and> length (deref (rho_approximation h params H)) = length (H ! h)
         \<and> (H ! h = [] \<longrightarrow> deref (rho_approximation h params H) = [])"
  using rho_approximation_value[OF assms(1), of params] assms(2) by simp

theorem rho_approximation_sum_of_exponentials_witness:
  "deref (rho_approximation 0 [Fin 2, Fin 0, Fin 5] [[Fin 3, Fin 4]]) = [Fin 2, Fin 2]
   \<and> deref (rho_approximation 1 [Fin 2, Fin 0, Fin 5] [[Fin 3, Fin 4], []]) = []"
proof -
  have a: "(0::nat) < length [[Fin 3, Fin 4]]" and b: "(1::nat) < length [[Fin 3, Fin 4], []]"
    and c: "length [Fin 2, Fin 0, Fin 5] = 3 * 1"
    by simp_all
  show ?thesis
    using rho_approximation_sum_of_exponentials[OF a c] rho_approximation_sum_of_exponentials[OF b c]
    by (simp add: spec_rho_def)
qed

section \<open>The objective\<close>

lemma fitness_heap: "\<exists>a. snd (fitness x w) = w\<lparr>heap := heap w @ [a]\<rparr>"
proof -
  obtain a where "snd (rho_approximation (self_X (udp w)) x (heap w)) = heap w @ [a]"
    using rho_approximation_heap by blast
  then show ?thesis
    by (auto simp: fitness_def Let_def split: prod.splits)
qed

lemma sum_list_nth_fl: "sum_list (xs :: fl list) = (\<Sum>i<length xs. xs ! i)"
  by (simp add: sum_list_sum_nth atLeast0LessThan)

lemma fitness_value:
  assumes "valid w" "length (dataset_X w) = length (dataset_Y w)"
  shows "fst (fitness params w)
         = Inr [spec_fitness (length params div 3) (dataset_X w) (dataset_Y w) params]"
proof -
  let ?X = "self_X (udp w)" and ?Y = "self_Y (udp w)" and ?H = "heap w"
  let ?n = "length params div 3"
  obtain r H1 where rH: "rho_approximation ?X params ?H = (r, H1)"
    by (cases "rho_approximation ?X params ?H")
  have X: "?X < length ?H" and Y: "?Y < length ?H" using assms(1) by (simp_all add: valid_def)
  obtain a where H1: "H1 = ?H @ [a]" using rho_approximation_heap[of ?X params ?H] rH by auto
  have pred: "H1 ! r = map (spec_rho ?n params) (dataset_X w)"
    using rho_approximation_value[OF X, of params] rH by (simp add: deref_def dataset_X_def)
  have HY: "H1 ! ?Y = dataset_Y w" using Y by (simp add: H1 nth_append dataset_Y_def)
  have len: "length (dataset_Y w) = length (dataset_X w)" using assms(2) by simp
  have "fst (fitness params w)
        = Inr [np_mean (np_abs (map2 (-) (np_log10 (dataset_Y w))
                 (np_log10 (map (spec_rho ?n params) (dataset_X w)))))]"
    by (simp add: fitness_def rH pred HY np_subtract_def np_log10_def len)
  also have "np_mean (np_abs (map2 (-) (np_log10 (dataset_Y w))
                 (np_log10 (map (spec_rho ?n params) (dataset_X w)))))
        = spec_fitness ?n (dataset_X w) (dataset_Y w) params"
    unfolding np_mean_def spec_fitness_def sum_list_nth_fl
    by (simp add: np_abs_def np_log10_def len)
  finally show ?thesis .
qed

text \<open>
  C1. For a dataset \<open>(X, Y)\<close> of arrays of the same length and a parameter vector of
  length \<open>3n\<close>, \<open>fitness\<close> returns the mean over \<open>i\<close> of
  \<open>|log10(Y[i]) - log10(rho(X, params)[i])|\<close>, as the only entry of the fitness vector.
\<close>

theorem fitness_is_mean_abs_log_error:
  assumes "valid w" and "length (dataset_X w) = length (dataset_Y w)" and "length params = 3 * n"
  shows "fst (fitness params w) = Inr [spec_fitness n (dataset_X w) (dataset_Y w) params]"
  using fitness_value[OF assms(1,2), of params] assms(3) by simp

theorem fitness_is_mean_abs_log_error_witness:
  "fst (fitness [Fin 1, Fin 0, Fin 5]
          \<lparr>udp = init 0 1 1, heap = [[Fin 3, Fin 4], [Fin 10, Fin 10]]\<rparr>) = Inr [Fin 1]"
proof -
  let ?w = "\<lparr>udp = init 0 1 1, heap = [[Fin 3, Fin 4], [Fin 10, Fin 10]]\<rparr>"
  have a: "valid ?w"
    and b: "length (dataset_X ?w) = length (dataset_Y ?w)"
    and c: "length [Fin 1, Fin 0, Fin 5] = 3 * 1"
    by (simp_all add: valid_def dataset_X_def dataset_Y_def init_def)
  show ?thesis
    using fitness_is_mean_abs_log_error[OF a b c]
    by (simp add: spec_fitness_def spec_rho_def dataset_X_def dataset_Y_def init_def)
qed


section \<open>Parameter vectors whose length is not a multiple of three\<close>

lemma slice_take: "b \<le> m \<Longrightarrow> slice a b (take m xs) = slice a b xs"
  by (auto simp: slice_def drop_take min_def)

text \<open>
  C5, as claimed: a parameter vector whose length is not a multiple of three makes the
  evaluation signal an error. The evaluation of a vector of length four returns the
  densities of its first three entries, and \<open>fitness\<close> returns a value.
\<close>

theorem params_length_not_checked_counterexample:
  "length [Fin 1, Fin 0, Fin 5, Fin 7] mod 3 \<noteq> 0
   \<and> deref (rho_approximation 0 [Fin 1, Fin 0, Fin 5, Fin 7] [[Fin 3, Fin 4]]) = [Fin 1, Fin 1]
   \<and> fst (fitness [Fin 1, Fin 0, Fin 5, Fin 7]
            \<lparr>udp = init 0 1 1, heap = [[Fin 3, Fin 4], [Fin 10, Fin 10]]\<rparr>) = Inr [Fin 1]"
proof -
  let ?w = "\<lparr>udp = init 0 1 1, heap = [[Fin 3, Fin 4], [Fin 10, Fin 10]]\<rparr>"
  have a: "valid ?w"
    and b: "length (dataset_X ?w) = length (dataset_Y ?w)"
    and c: "(0::nat) < length [[Fin 3, Fin 4]]"
    by (simp_all add: valid_def dataset_X_def dataset_Y_def init_def)
  show ?thesis
    using fitness_value[OF a b, of "[Fin 1, Fin 0, Fin 5, Fin 7]"]
      rho_approximation_value[OF c, of "[Fin 1, Fin 0, Fin 5, Fin 7]"]
    by (simp add: spec_fitness_def spec_rho_def dataset_X_def dataset_Y_def init_def)
qed

text \<open>
  C5, amended. For a parameter vector of any length the evaluation signals no error: the
  number of terms is the length divided by three, rounded down, and the entries from three
  times that number on are ignored. The evaluation and \<open>fitness\<close> are those of the
  vector cut to that length, and \<open>fitness\<close> returns a value whenever \<open>X\<close> and \<open>Y\<close>
  have the same length.
\<close>

theorem params_trailing_entries_ignored:
  assumes "valid w" and "length (dataset_X w) = length (dataset_Y w)"
  shows "rho_approximation h params H
           = rho_approximation h (take (3 * (length params div 3)) params) H
         \<and> fitness params w = fitness (take (3 * (length params div 3)) params) w
         \<and> fst (fitness params w)
             = Inr [spec_fitness (length params div 3) (dataset_X w) (dataset_Y w) params]"
proof -
  let ?n = "length params div 3"
  have len: "length (take (3 * ?n) params) div 3 = ?n" by (simp add: min_def)
  have rho: "rho_approximation h params H = rho_approximation h (take (3 * ?n) params) H" for h H
    unfolding rho_approximation_def len by (simp add: slice_take)
  show ?thesis
    using fitness_value[OF assms, of params] by (simp add: rho[symmetric] fitness_def)
qed

theorem params_trailing_entries_ignored_witness:
  "rho_approximation 0 [Fin 1, Fin 0, Fin 5, Fin 7] [[Fin 3, Fin 4]]
     = rho_approximation 0 [Fin 1, Fin 0, Fin 5] [[Fin 3, Fin 4]]
   \<and> fst (fitness [Fin 1, Fin 0, Fin 5, Fin 7]
            \<lparr>udp = init 0 1 1, heap = [[Fin 3, Fin 4], [Fin 10, Fin 10]]\<rparr>) = Inr [Fin 1]"
proof -
  let ?w = "\<lparr>udp = init 0 1 1, heap = [[Fin 3, Fin 4], [Fin 10, Fin 10]]\<rparr>"
  have a: "valid ?w"
    and b: "length (dataset_X ?w) = length (dataset_Y ?w)"
    by (simp_all add: valid_def dataset_X_def dataset_Y_def init_def)
  note t = params_trailing_entries_ignored[OF a b, of 0 "[Fin 1, Fin 0, Fin 5, Fin 7]" "[[Fin 3, Fin 4]]"]
  have "rho_approximation 0 [Fin 1, Fin 0, Fin 5, Fin 7] [[Fin 3, Fin 4]]
          = rho_approximation 0 [Fin 1, Fin 0, Fin 5] [[Fin 3, Fin 4]]"
    using t[THEN conjunct1] by simp
  moreover have "fst (fitness [Fin 1, Fin 0, Fin 5, Fin 7] ?w) = Inr [Fin 1]"
    using t[THEN conjunct2, THEN conjunct2]
    by (simp add: spec_fitness_def spec_rho_def dataset_X_def dataset_Y_def init_def)
  ultimately show ?thesis by simp
qed

section \<open>The objective at the all-zero parameter vector\<close>

lemma spec_rho_zero:
  assumes "3 * n \<le> m"
  shows "spec_rho n (replicate m 0) (Fin a) = 0"
proof -
  have "(replicate m (0::fl)) ! i
          * exp_fl ((- (Fin a - replicate m 0 ! (2 * n + i))) * replicate m 0 ! (n + i)) = 0"
    if "i < n" for i
    using that assms by (simp add: zero_fl_def)
  then show ?thesis by (simp add: spec_rho_def)
qed

lemma sum_PInf: "0 < (k::nat) \<Longrightarrow> (\<Sum>i<k. PInf) = PInf"
proof (induction k)
  case 0
  then show ?case by simp
next
  case (Suc k)
  then show ?case by (cases "k = 0") simp_all
qed

lemma log_error_of_zero: "positive_fl y \<Longrightarrow> \<bar>log10_fl y - log10_fl 0\<bar> = PInf"
  by (cases y) (simp_all add: zero_fl_def)

text \<open>
  C6. For a dataset with at least one altitude, finite altitudes and every \<open>Y[i] > 0\<close>,
  \<open>fitness\<close> at the all-zero parameter vector returns plus infinity: the predicted
  density is 0 at every altitude, its \<open>log10\<close> is minus infinity, and no exception is
  raised.
\<close>

theorem fitness_of_zero_params_is_infinite:
  assumes "valid w" and "dataset_X w \<noteq> []" and "length (dataset_X w) = length (dataset_Y w)"
    and "list_all finite_fl (dataset_X w)" and "list_all positive_fl (dataset_Y w)"
  shows "fst (fitness (replicate m 0) w) = Inr [PInf]"
proof -
  let ?n = "m div 3" and ?k = "length (dataset_X w)"
  have n: "3 * ?n \<le> m" by simp
  have "\<bar>log10_fl (dataset_Y w ! i) - log10_fl (spec_rho ?n (replicate m 0) (dataset_X w ! i))\<bar> = PInf"
    if "i < ?k" for i
  proof -
    have "finite_fl (dataset_X w ! i)"
      using assms(4) that by (simp add: list_all_length)
    then obtain a where "dataset_X w ! i = Fin a"
      by (cases "dataset_X w ! i") simp_all
    moreover have "positive_fl (dataset_Y w ! i)"
      using assms(3,5) that by (simp add: list_all_length)
    ultimately show ?thesis
      by (simp add: spec_rho_zero[OF n] log_error_of_zero)
  qed
  then have "(\<Sum>i<?k. \<bar>log10_fl (dataset_Y w ! i) - log10_fl (spec_rho ?n (replicate m 0) (dataset_X w ! i))\<bar>)
             = (\<Sum>i<?k. PInf)"
    by (intro sum.cong) simp_all
  also have "\<dots> = PInf" using assms(2) by (simp add: sum_PInf)
  finally have "spec_fitness ?n (dataset_X w) (dataset_Y w) (replicate m 0) = PInf"
    by (simp add: spec_fitness_def)
  then show ?thesis
    using fitness_value[OF assms(1,3), of "replicate m 0"] by simp
qed

theorem fitness_of_zero_params_is_infinite_witness:
  "fst (fitness [0, 0, 0, 0, 0, 0]
          \<lparr>udp = init 0 1 2, heap = [[Fin 100, Fin 200], [Fin (1/1000), Fin (1/100000)]]\<rparr>)
   = Inr [PInf]"
proof -
  let ?w = "\<lparr>udp = init 0 1 2, heap = [[Fin 100, Fin 200], [Fin (1/1000), Fin (1/100000)]]\<rparr>"
  have a: "valid ?w" and b: "dataset_X ?w \<noteq> []"
    and c: "length (dataset_X ?w) = length (dataset_Y ?w)"
    and d: "list_all finite_fl (dataset_X ?w)" and e: "list_all positive_fl (dataset_Y ?w)"
    by (simp_all add: valid_def dataset_X_def dataset_Y_def init_def)
  have "replicate 6 (0::fl) = [0, 0, 0, 0, 0, 0]" by (simp add: numeral_eq_Suc)
  then show ?thesis
    using fitness_of_zero_params_is_infinite[OF a b c d e, of 6] by simp
qed

section \<open>The bounds\<close>

lemma list_mul_single: "list_mul [c] k = replicate (nat k) c"
  by (simp add: list_mul_def)

lemma list_mul_3: "list_mul (replicate k c) 3 = replicate (3 * k) c"
  by (simp add: list_mul_def numeral_3_eq_3 replicate_add[symmetric])

text \<open>
  C4. For a problem with term count \<open>n\<close>, \<open>get_bounds\<close> returns two vectors of length
  \<open>3n\<close>: the lower one is all zeros, the upper one is 0.1 in its first \<open>2n\<close> places and
  100 in its last \<open>n\<close> places.
\<close>

theorem get_bounds_shape:
  assumes "0 \<le> self_n (udp w)"
  shows "fst (get_bounds w)
           = (replicate (3 * nat (self_n (udp w))) 0,
              replicate (2 * nat (self_n (udp w))) (1 / 10) @ replicate (nat (self_n (udp w))) 100)
         \<and> int (length (fst (fst (get_bounds w)))) = 3 * self_n (udp w)
         \<and> int (length (snd (fst (get_bounds w)))) = 3 * self_n (udp w)"
proof -
  let ?k = "nat (self_n (udp w))"
  have s: "slice_start (self_n (udp w) * 2) (3 * ?k) = 2 * ?k"
    using assms by (simp add: slice_start_def min_def) linarith
  have "fst (get_bounds w)
          = (replicate (3 * ?k) 0, replicate (2 * ?k) (1 / 10) @ replicate ?k 100)"
    by (simp add: get_bounds_def Let_def list_mul_single list_mul_3 assign_from_def s)
  then show ?thesis using assms by simp
qed

theorem get_bounds_shape_witness:
  "fst (get_bounds \<lparr>udp = init 0 1 2, heap = [[], []]\<rparr>)
     = ([0, 0, 0, 0, 0, 0], [1 / 10, 1 / 10, 1 / 10, 1 / 10, 100, 100])"
proof -
  have "(0::int) \<le> self_n (udp \<lparr>udp = init 0 1 2, heap = [[], []]\<rparr>)"
    by (simp add: init_def)
  from get_bounds_shape[OF this] show ?thesis
    by (simp add: init_def numeral_eq_Suc)
qed

section \<open>No call changes the dataset\<close>

lemma grows_refl: "grows w w"
  by (simp add: grows_def)

lemma grows_trans: "grows w w1 \<Longrightarrow> grows w1 w2 \<Longrightarrow> grows w w2"
  by (auto simp: grows_def)

lemma grows_nth: "grows w w' \<Longrightarrow> a < length (heap w) \<Longrightarrow> heap w' ! a = heap w ! a"
  by (auto simp: grows_def nth_append)

lemma grows_length: "grows w w' \<Longrightarrow> length (heap w) \<le> length (heap w')"
  by (auto simp: grows_def)

lemma grows_take: "grows w w' \<Longrightarrow> take (length (heap w)) (heap w') = heap w"
  by (auto simp: grows_def)

lemma fitness_grows: "grows w (snd (fitness x w))"
proof -
  obtain a where "snd (fitness x w) = w\<lparr>heap := heap w @ [a]\<rparr>"
    using fitness_heap by blast
  then show ?thesis by (simp add: grows_def)
qed

lemma call_all_grows:
  assumes "\<And>p w. grows w (snd (f p w))"
  shows "grows w (snd (call_all f ps w))"
proof (induction ps arbitrary: w)
  case Nil
  show ?case by (simp add: grows_refl)
next
  case (Cons p ps)
  obtain r w1 where f: "f p w = (r, w1)" by (cases "f p w")
  have g1: "grows w w1" using assms[of w p] f by simp
  show ?case
  proof (cases r)
    case (Inl e)
    then show ?thesis using f g1 by simp
  next
    case (Inr v)
    obtain rs w2 where c: "call_all f ps w1 = (rs, w2)" by (cases "call_all f ps w1")
    have "grows w1 w2" using Cons[of w1] c by simp
    then have "grows w w2" using g1 grows_trans by blast
    then show ?thesis using f Inr c by (cases rs) simp_all
  qed
qed

lemma gradient_grows: "grows w (snd (gradient E x w))"
proof -
  have "grows w (snd (call_all (\<lambda>x. fitness x) (eg_points E x) w))"
    by (rule call_all_grows) (rule fitness_grows)
  then show ?thesis
    by (auto simp: gradient_def estimate_gradient_def split: prod.splits sum.splits)
qed

lemma perform_grows: "grows w (perform E c w)"
  by (cases c) (simp_all add: fitness_grows gradient_grows get_bounds_def Let_def grows_refl)

lemma run_grows: "grows w (run E cs w)"
proof (induction cs arbitrary: w)
  case Nil
  show ?case by (simp add: grows_refl)
next
  case (Cons c cs)
  show ?case
    using perform_grows[of w E c] Cons[of "perform E c w"] grows_trans by auto
qed

text \<open>
  C9. After every sequence of calls to \<open>fitness\<close>, \<open>gradient\<close> and \<open>get_bounds\<close>,
  with any parameter vectors and any finite-difference scheme, the fields of the object
  are the same references and the same \<open>n\<close>, and the arrays \<open>X\<close> and \<open>Y\<close> have the
  contents they had: the calls only allocate new arrays.
\<close>

theorem calls_leave_dataset_unchanged:
  assumes "valid w"
  shows "udp (run E cs w) = udp w
         \<and> dataset_X (run E cs w) = dataset_X w
         \<and> dataset_Y (run E cs w) = dataset_Y w
         \<and> take (length (heap w)) (heap (run E cs w)) = heap w
         \<and> valid (run E cs w)"
proof -
  have g: "grows w (run E cs w)" by (rule run_grows)
  have u: "udp (run E cs w) = udp w" using g by (simp add: grows_def)
  have X: "self_X (udp w) < length (heap w)" and Y: "self_Y (udp w) < length (heap w)"
    using assms by (simp_all add: valid_def)
  show ?thesis
    using u X Y grows_nth[OF g X] grows_nth[OF g Y] grows_length[OF g] grows_take[OF g]
    by (simp add: dataset_X_def dataset_Y_def valid_def)
qed

theorem calls_leave_dataset_unchanged_witness:
  "dataset_X (run (central_difference (Fin (1 / 100)))
       [Fitness [Fin 1, Fin 0, Fin 5], Gradient [Fin 1, Fin 0, Fin 5], Get_bounds]
       \<lparr>udp = init 0 1 1, heap = [[Fin 3, Fin 4], [Fin 10, Fin 10]]\<rparr>) = [Fin 3, Fin 4]
   \<and> dataset_Y (run (central_difference (Fin (1 / 100)))
       [Fitness [Fin 1, Fin 0, Fin 5], Gradient [Fin 1, Fin 0, Fin 5], Get_bounds]
       \<lparr>udp = init 0 1 1, heap = [[Fin 3, Fin 4], [Fin 10, Fin 10]]\<rparr>) = [Fin 10, Fin 10]
   \<and> udp (run (central_difference (Fin (1 / 100)))
       [Fitness [Fin 1, Fin 0, Fin 5], Gradient [Fin 1, Fin 0, Fin 5], Get_bounds]
       \<lparr>udp = init 0 1 1, heap = [[Fin 3, Fin 4], [Fin 10, Fin 10]]\<rparr>) = init 0 1 1"
proof -
  let ?w = "\<lparr>udp = init 0 1 1, heap = [[Fin 3, Fin 4], [Fin 10, Fin 10]]\<rparr>"
  have a: "valid ?w" by (simp add: valid_def init_def)
  have b: "dataset_X ?w = [Fin 3, Fin 4]" and c: "dataset_Y ?w = [Fin 10, Fin 10]"
    by (simp_all add: dataset_X_def dataset_Y_def init_def)
  show ?thesis
    using calls_leave_dataset_unchanged[OF a, of "central_difference (Fin (1 / 100))"
        "[Fitness [Fin 1, Fin 0, Fin 5], Gradient [Fin 1, Fin 0, Fin 5], Get_bounds]"]
    by (simp only: b c world.simps)
qed


section \<open>The refinement loop of \<open>cart2geo\<close>\<close>

lemma loop_step:
  assumes "nonneg_fl p"
  shows "cart2geo_loop B z p e2 R_eq (Suc k) h phi
         = cart2geo_loop B z p e2 R_eq k (Some (fst (spec_step B z p e2 R_eq (h0, phi))))
             (snd (spec_step B z p e2 R_eq (h0, phi)))"
  by (simp add: spec_step_def Let_def div_div_step[OF assms])

text \<open>After \<open>k + 1\<close> turns the loop holds the \<open>(k + 1)\<close>-fold step of the specification.\<close>

lemma loop_funpow:
  assumes "nonneg_fl p"
  shows "cart2geo_loop B z p e2 R_eq (Suc k) h phi
         = (Some (fst ((spec_step B z p e2 R_eq ^^ Suc k) (h0, phi))),
            snd ((spec_step B z p e2 R_eq ^^ Suc k) (h0, phi)))"
proof (induction k arbitrary: h phi h0)
  case 0
  show ?case
    by (simp only: loop_step[OF assms, of _ _ _ _ _ _ _ h0] cart2geo_loop.simps(1)
          funpow.simps o_apply id_apply)
next
  case (Suc k)
  let ?s = "spec_step B z p e2 R_eq (h0, phi)"
  have "cart2geo_loop B z p e2 R_eq (Suc (Suc k)) h phi
        = cart2geo_loop B z p e2 R_eq (Suc k) (Some (fst ?s)) (snd ?s)"
    by (rule loop_step[OF assms])
  also have "\<dots> = (Some (fst ((spec_step B z p e2 R_eq ^^ Suc k) (fst ?s, snd ?s))),
                     snd ((spec_step B z p e2 R_eq ^^ Suc k) (fst ?s, snd ?s)))"
    by (rule Suc)
  also have "(spec_step B z p e2 R_eq ^^ Suc k) (fst ?s, snd ?s)
             = (spec_step B z p e2 R_eq ^^ Suc (Suc k)) (h0, phi)"
    by (simp only: prod.collapse funpow_swap1[symmetric] funpow.simps o_apply)
  finally show ?case .
qed

text \<open>The altitude has no value after the loop only if the loop made no turn.\<close>

lemma loop_assigns: "fst (cart2geo_loop B z p e2 R_eq k h phi) = None \<longleftrightarrow> k = 0 \<and> h = None"
  by (induction k arbitrary: h phi) (simp_all add: Let_def)

lemma sqrt_nonneg_np: "sqrt_nonneg np"
proof -
  have "nonneg_fl (sqrt_fl v)" for v by (cases v) simp_all
  then show ?thesis by (simp add: sqrt_nonneg_def np_def)
qed

lemma ieee_backend_np: "ieee_backend np"
  by (simp add: ieee_backend_def np_def)

text \<open>
  C10. With \<open>iters = 0\<close> the call fails: \<open>h\<close> is returned without ever being assigned,
  for every input, and the initial estimate of the latitude is not returned. The call
  returns a result exactly when \<open>iters\<close> is at least 1.
\<close>

theorem cart2geo_needs_an_iteration:
  "cart2geo B x y z e2 R_eq 0 = Inl UnboundLocalError
   \<and> ((\<exists>r. cart2geo B x y z e2 R_eq iters = Inr r) \<longleftrightarrow> 1 \<le> iters)
   \<and> (cart2geo B x y z e2 R_eq iters = Inl UnboundLocalError \<longleftrightarrow> iters < 1)"
proof -
  let ?p = "backend_sqrt B (x ^ 2 + y ^ 2)"
  let ?phi = "backend_atan B (z / ?p / (1 - e2))"
  obtain h phi where l: "cart2geo_loop B z ?p e2 R_eq (nat iters) None ?phi = (h, phi)"
    by (cases "cart2geo_loop B z ?p e2 R_eq (nat iters) None ?phi")
  have "h = None \<longleftrightarrow> iters < 1"
    using loop_assigns[of B z ?p e2 R_eq "nat iters" None ?phi] l by auto
  then have "(\<exists>r. cart2geo B x y z e2 R_eq iters = Inr r) \<longleftrightarrow> 1 \<le> iters"
    and "cart2geo B x y z e2 R_eq iters = Inl UnboundLocalError \<longleftrightarrow> iters < 1"
    by (auto simp: cart2geo_def Let_def l split: option.splits)
  moreover have "cart2geo B x y z e2 R_eq 0 = Inl UnboundLocalError"
    by (simp add: cart2geo_def Let_def)
  ultimately show ?thesis by simp
qed

theorem cart2geo_needs_an_iteration_witness:
  "cart2geo np (Fin 6378137) (Fin 0) (Fin 0) default_e2 a_earth 0 = Inl UnboundLocalError
   \<and> (\<exists>r. cart2geo np (Fin 6378137) (Fin 0) (Fin 0) default_e2 a_earth 4 = Inr r)"
  using cart2geo_needs_an_iteration[of np "Fin 6378137" "Fin 0" "Fin 0" default_e2 a_earth 4]
  by simp

text \<open>
  C2, as claimed: for every iteration count \<open>k\<close> the function performs \<open>k\<close> refinement
  steps and returns \<open>(h, phi, longitude)\<close>. With \<open>k = 0\<close> nothing is returned.
\<close>

theorem cart2geo_zero_iterations_counterexample:
  "cart2geo np (Fin 3) (Fin 4) (Fin 1) (Fin (1 / 2)) (Fin 1) 0 = Inl UnboundLocalError"
  by (simp add: cart2geo_def Let_def)

text \<open>
  C2, amended. For every Cartesian input, every ellipsoid with \<open>e2\<close> at most 1 and every
  iteration count \<open>k\<close> of at least 1, \<open>cart2geo\<close> computes the longitude
  \<open>atan2(y, x)\<close>, \<open>p = sqrt(x^2 + y^2)\<close> and the initial estimate
  \<open>atan(z / (p * (1 - e2)))\<close>, performs exactly \<open>k\<close> refinement steps and returns the
  altitude of the last step, the latitude and the longitude; the number of steps is
  \<open>k\<close> whatever the data. The altitude \<open>h0\<close> the specification's iteration starts with
  has no influence.
\<close>

theorem cart2geo_runs_k_refinement_steps:
  assumes "sqrt_nonneg B" and "e2 = Fin e" and "e \<le> 1" and "1 \<le> k"
  shows "cart2geo B x y z e2 R_eq (int k) = Inr (spec_cartesianToGeodetic B x y z e2 R_eq k h0)"
proof -
  let ?p = "backend_sqrt B (x ^ 2 + y ^ 2)"
  have p: "nonneg_fl ?p" using assms(1) by (simp add: sqrt_nonneg_def)
  have init: "z / ?p / (1 - e2) = z / (?p * (1 - e2))"
  proof (cases "?p = Fin 0")
    case True
    have "z / Fin 0 / (1 - e2) = z / (Fin 0 * (1 - e2))"
      by (rule div_div_zero) (simp add: assms(2,3) one_fl_def)
    then show ?thesis by (simp only: True)
  next
    case False
    show ?thesis by (rule div_div_nonzero[OF p False])
  qed
  obtain j where k: "k = Suc j" using assms(4) by (cases k) simp_all
  show ?thesis
    unfolding cart2geo_def spec_cartesianToGeodetic_def Let_def init
    by (simp only: k nat_int loop_funpow[OF p, of _ _ _ _ _ _ _ h0] prod.case option.case)
qed

theorem cart2geo_runs_k_refinement_steps_witness:
  "cart2geo np (Fin 3) (Fin 4) (Fin 1) (Fin (1 / 2)) (Fin 1) 2
     = Inr (spec_cartesianToGeodetic np (Fin 3) (Fin 4) (Fin 1) (Fin (1 / 2)) (Fin 1) 2 NaN)"
proof -
  have a: "(1 / 2 :: real) \<le> 1" and b: "(1::nat) \<le> 2" by simp_all
  show ?thesis
    using cart2geo_runs_k_refinement_steps[OF sqrt_nonneg_np refl a b,
        of "Fin 3" "Fin 4" "Fin 1" "Fin 1" NaN]
    by simp
qed

section \<open>The polar axis\<close>

lemma pole_latitude:
  assumes "backend_atan B NaN = NaN"
  shows "backend_atan B (z / Fin 0 / (1 - e2 * N / (N + (Fin 0 / c - N)))) = NaN"
proof -
  have "z / Fin 0 / d = NaN" if "\<not> finite_fl d" for d
    using that by (cases z; cases d) auto
  then show ?thesis using assms pole_denominator by simp
qed

text \<open>Once the latitude is NaN, every further turn leaves NaN in both variables.\<close>

lemma loop_nan:
  assumes "ieee_backend B"
  shows "cart2geo_loop B z p e2 R_eq (Suc k) h NaN = (Some NaN, NaN)"
proof (induction k arbitrary: h)
  case 0
  show ?case using assms by (simp add: ieee_backend_def power2_fl Let_def)
next
  case (Suc k)
  have "cart2geo_loop B z p e2 R_eq (Suc (Suc k)) h NaN
        = cart2geo_loop B z p e2 R_eq (Suc k) (Some NaN) NaN"
    using assms by (simp add: ieee_backend_def power2_fl Let_def)
  then show ?case by (simp only: Suc)
qed

text \<open>
  Bounds of the alternating series of the arc tangent, and with Machin's formula a lower
  bound of \<open>pi\<close> that puts the float64 value of \<open>pi / 2\<close> below \<open>pi / 2\<close>.
\<close>

lemma arctan_partial_sums:
  fixes x :: real
  assumes "0 < x" and "x \<le> 1"
  shows "(\<Sum>i<2 * n. (- 1) ^ i * (1 / real (i * 2 + 1) * x ^ (i * 2 + 1))) \<le> arctan x"
    and "arctan x \<le> (\<Sum>i<2 * n + 1. (- 1) ^ i * (1 / real (i * 2 + 1) * x ^ (i * 2 + 1)))"
proof -
  have ax: "\<bar>x\<bar> \<le> 1" using assms by simp
  let ?a = "\<lambda>n. 1 / real (n * 2 + 1) * x ^ (n * 2 + 1)"
  have "0 < ?a 0" using assms by simp
  then have "(\<Sum>i. (- 1) ^ i * ?a i) \<in> {\<Sum>i<2 * n. (- 1) ^ i * ?a i .. \<Sum>i<2 * n + 1. (- 1) ^ i * ?a i}"
    using summable_Leibniz(2)[OF zeroseq_arctan_series[OF ax] monoseq_arctan_series[OF ax]] by blast
  then show "(\<Sum>i<2 * n. (- 1) ^ i * ?a i) \<le> arctan x"
    and "arctan x \<le> (\<Sum>i<2 * n + 1. (- 1) ^ i * ?a i)"
    by (simp_all add: arctan_series[OF ax])
qed

lemma pi_lower: "884279719003555 / 281474976710656 < pi"
proof -
  have a: "(\<Sum>i<2 * 6. (- 1) ^ i * (1 / real (i * 2 + 1) * (1 / 5) ^ (i * 2 + 1))) \<le> arctan (1 / 5)"
    by (rule arctan_partial_sums(1)) simp_all
  have b: "arctan (1 / 239) \<le> (\<Sum>i<2 * 1 + 1. (- 1) ^ i * (1 / real (i * 2 + 1) * (1 / 239) ^ (i * 2 + 1)))"
    by (rule arctan_partial_sums(2)) simp_all
  have "pi = 16 * arctan (1 / 5) - 4 * arctan (1 / 239)"
    using machin by simp
  moreover have "884279719003555 / 281474976710656
      < 16 * (\<Sum>i<2 * 6. (- 1) ^ i * (1 / real (i * 2 + 1) * (1 / 5) ^ (i * 2 + 1)))
        - 4 * (\<Sum>i<2 * 1 + 1. (- 1) ^ i * (1 / real (i * 2 + 1) * (1 / 239) ^ (i * 2 + 1)))"
    by (simp add: numeral_eq_Suc)
  ultimately show ?thesis using a b by linarith
qed

lemma pi_half_f64_below: "0 < pi_half_f64" "pi_half_f64 < pi / 2"
  using pi_lower by (simp_all add: pi_half_f64_def)

lemma cos_pi_half_f64: "0 < cos pi_half_f64"
  by (rule cos_gt_zero) (rule pi_half_f64_below)+

lemma default_e2_value: "default_e2 = Fin (1 - 6356752.314245\<^sup>2 / 6378137\<^sup>2)"
  by (simp add: default_e2_def a_earth_def b_earth_def power2_fl one_fl_def power2_eq_square)

lemma polar_N:
  assumes "0 \<le> e" "e < 1" "R \<noteq> 0"
  shows "Fin R / sqrt_fl (1 - Fin e * sin_fl (Fin q) ^ 2) = Fin (R / sqrt (1 - e * (sin q)\<^sup>2))"
proof -
  have "e * (sin q)\<^sup>2 \<le> e * 1"
    using assms(1) by (intro mult_left_mono) (simp_all add: abs_square_le_1)
  then have "0 < 1 - e * (sin q)\<^sup>2" using assms(2) by simp
  then show ?thesis by (simp add: power2_fl one_fl_def power2_eq_square)
qed




end
